theory Spec2Isabelle
  imports Main "HOL-Library.Sublist" "HOL-Library.AList"
begin

section \<open>Python strings\<close>

text \<open>
  A Python \<open>str\<close> is a sequence of Unicode code points. It is modelled as a list of
  natural numbers, one per code point; \<open>lit\<close> turns an ASCII literal of the source into
  that form.
\<close>

type_synonym pystr = "nat list"

definition lit :: "string \<Rightarrow> pystr" where
  "lit s = map of_char s"

text \<open>
  \<open>str.upper()\<close> maps every code point on its own and concatenates the results (one code
  point may become several). On ASCII it turns \<open>a..z\<close> into \<open>A..Z\<close> and leaves the rest
  alone. The mapping of the code points from 128 on is the Unicode table of the
  interpreter, which is no part of the repository: it is the parameter \<open>up\<close>.
\<close>

definition upper_cp :: "(nat \<Rightarrow> pystr) \<Rightarrow> nat \<Rightarrow> pystr" where
  "upper_cp up c =
     (if 97 \<le> c \<and> c \<le> 122 then [c - 32] else if c < 128 then [c] else up c)"

definition upper :: "(nat \<Rightarrow> pystr) \<Rightarrow> pystr \<Rightarrow> pystr" where
  "upper up s = concat (map (upper_cp up) s)"

text \<open>\<open>b in s\<close> on strings: \<open>b\<close> occurs in \<open>s\<close> as a contiguous run.\<close>

definition str_in :: "pystr \<Rightarrow> pystr \<Rightarrow> bool" where
  "str_in b s = sublist b s"

text \<open>
  \<open>str.isspace\<close> of one code point, and \<open>str.rstrip()\<close>, which removes the trailing
  white space.
\<close>

definition isspace_cp :: "nat \<Rightarrow> bool" where
  "isspace_cp c =
     ((9 \<le> c \<and> c \<le> 13) \<or> (28 \<le> c \<and> c \<le> 32) \<or> c = 133 \<or> c = 160 \<or> c = 5760
      \<or> (8192 \<le> c \<and> c \<le> 8202) \<or> c = 8232 \<or> c = 8233 \<or> c = 8239 \<or> c = 8287
      \<or> c = 12288)"

definition rstrip :: "pystr \<Rightarrow> pystr" where
  "rstrip s = rev (dropWhile isspace_cp (rev s))"

text \<open>\<open>sep.join(parts)\<close>.\<close>

fun join :: "pystr \<Rightarrow> pystr list \<Rightarrow> pystr" where
  "join sep [] = []"
| "join sep [x] = x"
| "join sep (x # y # ys) = x @ sep @ join sep (y # ys)"

section \<open>The query gateway (mcp/mcp_server.py)\<close>

text \<open>
  Python exceptions are values. Every error the store or the driver raises is an
  \<open>Exception\<close>; its message is kept.
\<close>

datatype exn = Exception pystr

definition bad :: "pystr list" where
  "bad = [lit ''CREATE'', lit ''MERGE'', lit ''DELETE'', lit ''SET'', lit ''DROP'',
          lit ''CALL dbms'', lit ''LOAD CSV'']"

definition is_read_only :: "(nat \<Rightarrow> pystr) \<Rightarrow> pystr \<Rightarrow> bool" where
  "is_read_only up cypher = (let u = upper up cypher in \<not> list_ex (\<lambda>b. str_in b u) bad)"

definition refusal :: pystr where
  "refusal = lit ''Refused: only read-only Cypher is allowed.''"

definition no_results :: pystr where
  "no_results = lit ''No results found.''"

definition limit_clause :: pystr where
  "limit_clause = 10 # lit ''LIMIT 25''"

text \<open>
  \<open>_run\<close> opens a connection, sends one query text to the store and returns the records
  or raises. It is the parameter \<open>store\<close>; \<open>render\<close> is \<open>str(r.data())\<close> of a record.
  \<open>bounded\<close> is the text after the second gate of \<open>query_runner\<close>.
\<close>

definition bounded :: "(nat \<Rightarrow> pystr) \<Rightarrow> pystr \<Rightarrow> pystr" where
  "bounded up cypher_q =
     (if \<not> str_in (lit ''LIMIT'') (upper up cypher_q) then rstrip cypher_q @ limit_clause
      else cypher_q)"

text \<open>
  \<open>query_runner\<close> returns the list of the query texts it has sent to the store, in order,
  and its own outcome: the string it returns, or the exception that leaves it.
\<close>

definition query_runner ::
  "(nat \<Rightarrow> pystr) \<Rightarrow> (pystr \<Rightarrow> exn + 'r list) \<Rightarrow> ('r \<Rightarrow> pystr) \<Rightarrow> pystr \<Rightarrow> pystr list \<times> (exn + pystr)"
where
  "query_runner up store render cypher_q =
     (if \<not> is_read_only up cypher_q then ([], Inr refusal)
      else
        let q = bounded up cypher_q in
        (case store q of
           Inl e \<Rightarrow> ([q], Inl e)
         | Inr results \<Rightarrow>
             let formatted = join [10] (map render results)
             in ([q], Inr (if formatted \<noteq> [] then formatted else no_results))))"

text \<open>
  What the specification means by a token occurring in a text "case-insensitively": some
  contiguous run of the text agrees with the token letter by letter, where a letter
  \<open>A..Z\<close> of the token is matched by itself or by its lower-case form. This reading
  does not mention \<open>upper\<close>.
\<close>

definition ci_eq :: "nat \<Rightarrow> nat \<Rightarrow> bool" where
  "ci_eq a b = (a = b \<or> (65 \<le> b \<and> b \<le> 90 \<and> a = b + 32))"

fun ci_prefix :: "pystr \<Rightarrow> pystr \<Rightarrow> bool" where
  "ci_prefix [] s = True"
| "ci_prefix (b # bs) [] = False"
| "ci_prefix (b # bs) (a # as) = (ci_eq a b \<and> ci_prefix bs as)"

fun ci_occurs :: "pystr \<Rightarrow> pystr \<Rightarrow> bool" where
  "ci_occurs tok [] = ci_prefix tok []"
| "ci_occurs tok (a # as) = (ci_prefix tok (a # as) \<or> ci_occurs tok as)"

text \<open>A token without lower-case letters and without code points beyond ASCII.\<close>

definition upper_token :: "pystr \<Rightarrow> bool" where
  "upper_token tok = list_all (\<lambda>b. b < 97 \<or> (122 < b \<and> b < 128)) tok"

text \<open>
  The other reading compares both sides in upper case, as Python programs do: the
  upper-cased token occurs in the upper-cased text.
\<close>

definition contains_ci :: "(nat \<Rightarrow> pystr) \<Rightarrow> pystr \<Rightarrow> pystr \<Rightarrow> bool" where
  "contains_ci up tok s = sublist (upper up tok) (upper up s)"

definition ascii_text :: "pystr \<Rightarrow> bool" where
  "ascii_text s = list_all (\<lambda>c. c < 128) s"

definition ascii_upper :: "nat \<Rightarrow> nat" where
  "ascii_upper c = (if 97 \<le> c \<and> c \<le> 122 then c - 32 else c)"

section \<open>The property-graph writer (load_neo4j_graph.py)\<close>

text \<open>
  A value of the export is of an arbitrary type \<open>'v\<close>; \<open>None\<close> is Python's \<open>None\<close>
  (a JSON \<open>null\<close>, or what \<open>dict.get\<close> gives for an absent key). A dictionary keeps
  its keys in insertion order and is an association list; assigning to a key replaces
  the value in place or appends the key (\<open>AList.update\<close>). A field of a node or of a
  relationship that may be absent is an option.
\<close>

type_synonym 'v pyval = "'v option"

type_synonym 'v pydict = "(pystr \<times> 'v pyval) list"

record 'v exported_node =
  n_id :: "'v pyval"
  n_labels :: "pystr list option"
  n_properties :: "'v pydict option"

record 'v exported_rel =
  r_type :: "pystr option"
  r_startNodeId :: "'v pyval"
  r_endNodeId :: "'v pyval"
  r_properties :: "'v pydict option"

record 'v export =
  nodes :: "'v exported_node list option"
  relationships :: "'v exported_rel list option"

text \<open>
  One call \<open>session.run(query, **kwargs)\<close>: the query text and the keyword arguments in
  the order they are passed. The session is a parameter: from its state and a call it
  gives the next state and either the records of the result or the exception raised.
\<close>

type_synonym 'v stmt = "pystr \<times> 'v pydict"

type_synonym ('s, 'v, 'r) session = "'s \<Rightarrow> 'v stmt \<Rightarrow> 's \<times> (exn + 'r list)"

text \<open>What the writer does to the outside, in order: calls of the session and prints.\<close>

datatype 'v message =
    ExportContains nat nat
  | CreatingNodes
  | NodeCreated pystr "'v pyval"
  | NodeFailed "'v pyval" exn
  | CreatingRelationships
  | RelCreated pystr "'v pyval" "'v pyval"
  | RelNotFound "'v pyval" "'v pyval"
  | RelFailed exn

datatype 'v effect = Run "'v stmt" | Print "'v message"

record ('s, 'v) loader =
  session_state :: 's
  nodes_created :: nat
  rels_created :: nat
  out :: "'v effect list"

definition marker :: pystr where
  "marker = lit ''_rulenet_id''"

definition props_str_of :: "'v pydict \<Rightarrow> pystr" where
  "props_str_of props = join (lit '', '') (map (\<lambda>k. k @ lit '': $'' @ k) (map fst props))"

definition node_labels_str :: "'v exported_node \<Rightarrow> pystr" where
  "node_labels_str node =
     join (lit '':'') (case n_labels node of None \<Rightarrow> [lit ''Node''] | Some ls \<Rightarrow> ls)"

definition node_props :: "'v exported_node \<Rightarrow> 'v pydict" where
  "node_props node =
     AList.update marker (n_id node)
       (case n_properties node of None \<Rightarrow> [] | Some p \<Rightarrow> p)"

definition node_stmt :: "'v exported_node \<Rightarrow> 'v stmt" where
  "node_stmt node =
     (let labels = node_labels_str node;
          props = node_props node;
          props_str = props_str_of props;
          query = lit ''CREATE (n:'' @ labels @ lit '' {'' @ props_str @ lit ''})''
      in (query, props))"

text \<open>The body of the first loop, with its \<open>try\<close> and \<open>except Exception\<close>.\<close>

definition create_node ::
  "('s, 'v, 'r) session \<Rightarrow> 'v exported_node \<Rightarrow> ('s, 'v) loader \<Rightarrow> ('s, 'v) loader"
where
  "create_node run node st =
     (let labels = node_labels_str node;
          props = node_props node;
          node_id = n_id node;
          stmt = node_stmt node
      in case run (session_state st) stmt of
           (s', Inr _) \<Rightarrow>
             st\<lparr>session_state := s',
                nodes_created := nodes_created st + 1,
                out := out st @
                  [Run stmt,
                   Print (NodeCreated labels
                     (case map_of props (lit ''label'') of None \<Rightarrow> node_id | Some v \<Rightarrow> v))]\<rparr>
         | (s', Inl e) \<Rightarrow>
             st\<lparr>session_state := s',
                out := out st @ [Run stmt, Print (NodeFailed node_id e)]\<rparr>)"

definition indent :: pystr where
  "indent = 10 # replicate 16 32"

definition rel_stmt :: "'v exported_rel \<Rightarrow> 'v stmt" where
  "rel_stmt rel =
     (let rel_type = (case r_type rel of None \<Rightarrow> lit ''RELATED_TO'' | Some t \<Rightarrow> t);
          start_id = r_startNodeId rel;
          end_id = r_endNodeId rel;
          props = (case r_properties rel of None \<Rightarrow> [] | Some p \<Rightarrow> p);
          props_str = (if props \<noteq> [] then lit '' {'' @ props_str_of props @ lit ''}'' else []);
          query =
            indent @ lit ''MATCH (a {_rulenet_id: $start_id})'' @
            indent @ lit ''MATCH (b {_rulenet_id: $end_id})'' @
            indent @ lit ''CREATE (a)-[r:'' @ rel_type @ props_str @ lit '']->(b)'' @
            indent @ lit ''RETURN r'' @
            indent
      in (query, (lit ''start_id'', start_id) # (lit ''end_id'', end_id) # props))"

text \<open>\<open>result.single()\<close>: the first record, or \<open>None\<close> when there is none.\<close>

definition single :: "'r list \<Rightarrow> 'r option" where
  "single records = (case records of [] \<Rightarrow> None | r # _ \<Rightarrow> Some r)"

text \<open>The body of the second loop.\<close>

definition create_rel ::
  "('s, 'v, 'r) session \<Rightarrow> 'v exported_rel \<Rightarrow> ('s, 'v) loader \<Rightarrow> ('s, 'v) loader"
where
  "create_rel run rel st =
     (let rel_type = (case r_type rel of None \<Rightarrow> lit ''RELATED_TO'' | Some t \<Rightarrow> t);
          start_id = r_startNodeId rel;
          end_id = r_endNodeId rel;
          stmt = rel_stmt rel
      in case run (session_state st) stmt of
           (s', Inr result) \<Rightarrow>
             (case single result of
                Some _ \<Rightarrow>
                  st\<lparr>session_state := s',
                     rels_created := rels_created st + 1,
                     out := out st @ [Run stmt, Print (RelCreated rel_type start_id end_id)]\<rparr>
              | None \<Rightarrow>
                  st\<lparr>session_state := s',
                     out := out st @ [Run stmt, Print (RelNotFound start_id end_id)]\<rparr>)
         | (s', Inl e) \<Rightarrow>
             st\<lparr>session_state := s', out := out st @ [Run stmt, Print (RelFailed e)]\<rparr>)"

text \<open>
  \<open>load_from_json\<close> on the parsed export. It gives the final state of the session, the
  effects in order, and the dictionary it returns.
\<close>

definition nodes_of :: "'v export \<Rightarrow> 'v exported_node list" where
  "nodes_of ex = (case nodes ex of None \<Rightarrow> [] | Some ns \<Rightarrow> ns)"

definition rels_of :: "'v export \<Rightarrow> 'v exported_rel list" where
  "rels_of ex = (case relationships ex of None \<Rightarrow> [] | Some rs \<Rightarrow> rs)"

definition load_from_json ::
  "('s, 'v, 'r) session \<Rightarrow> 's \<Rightarrow> 'v export \<Rightarrow> 's \<times> 'v effect list \<times> (pystr \<times> nat) list"
where
  "load_from_json run s ex =
     (let ns = nodes_of ex;
          rs = rels_of ex;
          st0 = \<lparr>session_state = s, nodes_created = 0, rels_created = 0,
                 out = [Print (ExportContains (length ns) (length rs)), Print CreatingNodes]\<rparr>;
          st1 = fold (create_node run) ns st0;
          st2 = fold (create_rel run) rs (st1\<lparr>out := out st1 @ [Print CreatingRelationships]\<rparr>)
      in (session_state st2, out st2,
          [(lit ''nodes_created'', nodes_created st2),
           (lit ''relationships_created'', rels_created st2)]))"

text \<open>Readers of the effects.\<close>

fun runs :: "'v effect list \<Rightarrow> 'v stmt list" where
  "runs [] = []"
| "runs (Run c # es) = c # runs es"
| "runs (Print m # es) = runs es"

fun prints :: "'v effect list \<Rightarrow> 'v message list" where
  "prints [] = []"
| "prints (Run c # es) = prints es"
| "prints (Print m # es) = m # prints es"

fun is_node_failure :: "'v message \<Rightarrow> bool" where
  "is_node_failure (NodeFailed i e) = True"
| "is_node_failure m = False"

fun is_rel_failure :: "'v message \<Rightarrow> bool" where
  "is_rel_failure (RelNotFound a b) = True"
| "is_rel_failure (RelFailed e) = True"
| "is_rel_failure m = False"

definition node_failures :: "'v effect list \<Rightarrow> nat" where
  "node_failures es = length (filter is_node_failure (prints es))"

definition rel_failures :: "'v effect list \<Rightarrow> nat" where
  "rel_failures es = length (filter is_rel_failure (prints es))"

text \<open>The properties a node declares in the export, before the writer touches them.\<close>

definition declared_props :: "'v exported_node \<Rightarrow> 'v pydict" where
  "declared_props node = (case n_properties node of None \<Rightarrow> [] | Some p \<Rightarrow> p)"

text \<open>
  The reference the writer is compared with: a list of calls made one after the other
  on the session, each from the state the one before has left, and what each of them
  gives. It does not depend on the writer.
\<close>

fun outcomes :: "('s, 'v, 'r) session \<Rightarrow> 's \<Rightarrow> 'v stmt list \<Rightarrow> (exn + 'r list) list" where
  "outcomes run s [] = []"
| "outcomes run s (c # cs) = snd (run s c) # outcomes run (fst (run s c)) cs"

fun final_state :: "('s, 'v, 'r) session \<Rightarrow> 's \<Rightarrow> 'v stmt list \<Rightarrow> 's" where
  "final_state run s [] = s"
| "final_state run s (c # cs) = final_state run (fst (run s c)) cs"

fun succeeded :: "exn + 'r list \<Rightarrow> bool" where
  "succeeded (Inr rs) = True"
| "succeeded (Inl e) = False"

fun has_record :: "exn + 'r list \<Rightarrow> bool" where
  "has_record (Inr (r # rs)) = True"
| "has_record (Inr []) = False"
| "has_record (Inl e) = False"

definition all_stmts :: "'v export \<Rightarrow> 'v stmt list" where
  "all_stmts ex = map node_stmt (nodes_of ex) @ map rel_stmt (rels_of ex)"

definition node_outcomes :: "('s, 'v, 'r) session \<Rightarrow> 's \<Rightarrow> 'v export \<Rightarrow> (exn + 'r list) list" where
  "node_outcomes run s ex = take (length (nodes_of ex)) (outcomes run s (all_stmts ex))"

definition rel_outcomes :: "('s, 'v, 'r) session \<Rightarrow> 's \<Rightarrow> 'v export \<Rightarrow> (exn + 'r list) list" where
  "rel_outcomes run s ex = drop (length (nodes_of ex)) (outcomes run s (all_stmts ex))"

text \<open>
  Sessions and exports for the examples. The session \<open>accepting\<close> carries out every call
  and returns one record, \<open>rejecting\<close> raises on every call, and \<open>missing\<close> raises on
  nothing and finds nothing: every call returns no record, as the relationship query
  does when an endpoint is not in the store. Identifiers and property values are
  numbers or strings. \<open>sample_export\<close> is the sample scenario of the specification.
\<close>

definition accepting :: "(unit, 'v, unit) session" where
  "accepting s c = (s, Inr [()])"

definition rejecting :: "(unit, 'v, unit) session" where
  "rejecting s c = (s, Inl (Exception (lit ''rejected'')))"

definition missing :: "(unit, 'v, unit) session" where
  "missing s c = (s, Inr [])"

definition sample_export :: "(int + pystr) export" where
  "sample_export =
     \<lparr>nodes = Some [\<lparr>n_id = Some (Inl 1), n_labels = Some [lit ''Person''],
                     n_properties = Some [(lit ''label'', Some (Inr (lit ''Alice'')))]\<rparr>],
      relationships = Some []\<rparr>"

definition node_a :: "(int + pystr) exported_node" where
  "node_a =
     \<lparr>n_id = Some (Inl 1), n_labels = Some [lit ''Person''],
      n_properties = Some [(lit ''_rulenet_id'', Some (Inl 99)),
                           (lit ''label'', Some (Inr (lit ''Alice'')))]\<rparr>"

definition node_b :: "(int + pystr) exported_node" where
  "node_b = \<lparr>n_id = Some (Inl 2), n_labels = None, n_properties = None\<rparr>"

definition rel_ab :: "(int + pystr) exported_rel" where
  "rel_ab =
     \<lparr>r_type = Some (lit ''KNOWS''), r_startNodeId = Some (Inl 1), r_endNodeId = Some (Inl 2),
      r_properties = None\<rparr>"

definition pair_export :: "(int + pystr) export" where
  "pair_export = \<lparr>nodes = Some [node_a, node_b], relationships = Some [rel_ab]\<rparr>"

definition loader0 :: "(unit, int + pystr) loader" where
  "loader0 = \<lparr>session_state = (), nodes_created = 0, rels_created = 0, out = []\<rparr>"

text \<open>An export without the keys \<open>nodes\<close> and \<open>relationships\<close>: nothing to import.\<close>

definition empty_export :: "(int + pystr) export" where
  "empty_export = \<lparr>nodes = None, relationships = None\<rparr>"

section \<open>The heterogeneous assembler (load_pyg_graph.py)\<close>

text \<open>
  The errors that can leave \<open>load_hetero_graph\<close>: a missing top-level key, a triplet
  string that does not unpack into three parts, and the error of the buffer
  constructor.
\<close>

datatype load_error = KeyError pystr | ValueError | ShapeMismatchError

text \<open>
  Modelled from the spec: the buffer constructor of the tensor library
  (\<open>torch.tensor\<close>), which the repository calls and does not contain. It builds a dense
  two-dimensional buffer from a list of rows when all rows have the same width, and
  fails with \<open>ShapeMismatchError\<close> otherwise. A buffer is kept as its list of rows; the
  conversion of the numbers to the element type of the buffer is left out.
\<close>

definition tensor :: "'a list list \<Rightarrow> load_error + 'a list list" where
  "tensor rows =
     (case rows of
        [] \<Rightarrow> Inr []
      | r # rs \<Rightarrow>
          if list_all (\<lambda>x. length x = length r) rs then Inr rows
          else Inl ShapeMismatchError)"

record 'a tensor_export =
  nodeFeatures :: "(pystr \<times> 'a list list) list option"
  nodeLabels :: "(pystr \<times> pystr list) list option"
  edgeIndices :: "(pystr \<times> int list list) list option"
  edgeFeatures :: "(pystr \<times> 'a list list) list option"

text \<open>
  \<open>HeteroData\<close>: one store per node type (the buffer \<open>x\<close> and the optional \<open>labels\<close>)
  and one store per type triplet (\<open>edge_index\<close> and the optional \<open>edge_attr\<close>).
\<close>

record 'a node_store =
  node_x :: "'a list list"
  node_labels :: "pystr list option"

record 'a edge_store =
  edge_index :: "int list list"
  edge_attr :: "'a list list option"

record 'a hetero_data =
  node_stores :: "(pystr \<times> 'a node_store) list"
  edge_stores :: "((pystr \<times> pystr \<times> pystr) \<times> 'a edge_store) list"

definition HeteroData :: "'a hetero_data" where
  "HeteroData = \<lparr>node_stores = [], edge_stores = []\<rparr>"

definition set_x :: "pystr \<Rightarrow> 'a list list \<Rightarrow> 'a hetero_data \<Rightarrow> 'a hetero_data" where
  "set_x node_type t d =
     d\<lparr>node_stores :=
         AList.update node_type
           (case map_of (node_stores d) node_type of
              None \<Rightarrow> \<lparr>node_x = t, node_labels = None\<rparr>
            | Some st \<Rightarrow> st\<lparr>node_x := t\<rparr>)
           (node_stores d)\<rparr>"

definition set_labels :: "pystr \<Rightarrow> pystr list \<Rightarrow> 'a hetero_data \<Rightarrow> 'a hetero_data" where
  "set_labels node_type ls d =
     d\<lparr>node_stores :=
         AList.update node_type
           (case map_of (node_stores d) node_type of
              None \<Rightarrow> \<lparr>node_x = [], node_labels = Some ls\<rparr>
            | Some st \<Rightarrow> st\<lparr>node_labels := Some ls\<rparr>)
           (node_stores d)\<rparr>"

definition set_edge_index ::
  "pystr \<times> pystr \<times> pystr \<Rightarrow> int list list \<Rightarrow> 'a hetero_data \<Rightarrow> 'a hetero_data"
where
  "set_edge_index key t d =
     d\<lparr>edge_stores :=
         AList.update key
           (case map_of (edge_stores d) key of
              None \<Rightarrow> \<lparr>edge_index = t, edge_attr = None\<rparr>
            | Some st \<Rightarrow> st\<lparr>edge_index := t\<rparr>)
           (edge_stores d)\<rparr>"

definition set_edge_attr ::
  "pystr \<times> pystr \<times> pystr \<Rightarrow> 'a list list \<Rightarrow> 'a hetero_data \<Rightarrow> 'a hetero_data"
where
  "set_edge_attr key t d =
     d\<lparr>edge_stores :=
         AList.update key
           (case map_of (edge_stores d) key of
              None \<Rightarrow> \<lparr>edge_index = [], edge_attr = Some t\<rparr>
            | Some st \<Rightarrow> st\<lparr>edge_attr := Some t\<rparr>)
           (edge_stores d)\<rparr>"

text \<open>\<open>s.split(sep)\<close> for a separator of one code point.\<close>

fun split :: "nat \<Rightarrow> pystr \<Rightarrow> pystr list" where
  "split sep [] = [[]]"
| "split sep (c # cs) =
     (if c = sep then [] # split sep cs
      else (case split sep cs of [] \<Rightarrow> [[c]] | p # ps \<Rightarrow> (c # p) # ps))"

text \<open>
  The body of the first loop: the buffer of one node type, and its labels when the
  export has them. An exception of the body leaves the loop and the function.
\<close>

definition node_step ::
  "'a tensor_export \<Rightarrow> pystr \<Rightarrow> 'a list list \<Rightarrow> 'a hetero_data \<Rightarrow> load_error + 'a hetero_data"
where
  "node_step ex node_type features d =
     (case tensor features of
        Inl e \<Rightarrow> Inl e
      | Inr t \<Rightarrow>
          let d1 = set_x node_type t d
          in (case nodeLabels ex of
                None \<Rightarrow> Inr d1
              | Some nl \<Rightarrow>
                  (case map_of nl node_type of
                     None \<Rightarrow> Inr d1
                   | Some ls \<Rightarrow> Inr (set_labels node_type ls d1))))"

fun load_nodes ::
  "'a tensor_export \<Rightarrow> (pystr \<times> 'a list list) list \<Rightarrow> 'a hetero_data \<Rightarrow> load_error + 'a hetero_data"
where
  "load_nodes ex [] d = Inr d"
| "load_nodes ex ((node_type, features) # rest) d =
     (case node_step ex node_type features d of
        Inl e \<Rightarrow> Inl e
      | Inr d' \<Rightarrow> load_nodes ex rest d')"

text \<open>
  The body of the second loop: the triplet string is split at the commas and must give
  three parts, the index buffer is built, and the edge features are attached when the
  export has a non-empty buffer with a non-empty first row for the triplet.
\<close>

definition edge_step ::
  "'a tensor_export \<Rightarrow> pystr \<Rightarrow> int list list \<Rightarrow> 'a hetero_data \<Rightarrow> load_error + 'a hetero_data"
where
  "edge_step ex triplet_str indices d =
     (case split 44 triplet_str of
        [src_type, rel_type, dst_type] \<Rightarrow>
          (case tensor indices of
             Inl e \<Rightarrow> Inl e
           | Inr t \<Rightarrow>
               let d1 = set_edge_index (src_type, rel_type, dst_type) t d in
               (case edgeFeatures ex of
                  None \<Rightarrow> Inr d1
                | Some ef \<Rightarrow>
                    (case map_of ef triplet_str of
                       None \<Rightarrow> Inr d1
                     | Some edge_feats \<Rightarrow>
                         if (case edge_feats of [] \<Rightarrow> False | r # _ \<Rightarrow> 0 < length r) then
                           (case tensor edge_feats of
                              Inl e \<Rightarrow> Inl e
                            | Inr a \<Rightarrow> Inr (set_edge_attr (src_type, rel_type, dst_type) a d1))
                         else Inr d1)))
      | _ \<Rightarrow> Inl ValueError)"

fun load_edges ::
  "'a tensor_export \<Rightarrow> (pystr \<times> int list list) list \<Rightarrow> 'a hetero_data \<Rightarrow> load_error + 'a hetero_data"
where
  "load_edges ex [] d = Inr d"
| "load_edges ex ((triplet_str, indices) # rest) d =
     (case edge_step ex triplet_str indices d of
        Inl e \<Rightarrow> Inl e
      | Inr d' \<Rightarrow> load_edges ex rest d')"

text \<open>
  \<open>load_hetero_graph\<close> on the parsed export. The tensor library is taken to be
  installed; without it the function raises \<open>ImportError\<close> before it reads anything.
\<close>

definition load_hetero_graph :: "'a tensor_export \<Rightarrow> load_error + 'a hetero_data" where
  "load_hetero_graph ex =
     (case nodeFeatures ex of
        None \<Rightarrow> Inl (KeyError (lit ''nodeFeatures''))
      | Some nf \<Rightarrow>
          (case load_nodes ex nf HeteroData of
             Inl e \<Rightarrow> Inl e
           | Inr d \<Rightarrow>
               (case edgeIndices ex of
                  None \<Rightarrow> Inl (KeyError (lit ''edgeIndices''))
                | Some ei \<Rightarrow> load_edges ex ei d)))"

text \<open>Shapes: a list of rows is rectangular when all rows are as wide as the first.\<close>

definition rectangular :: "'a list list \<Rightarrow> bool" where
  "rectangular rows = (case rows of [] \<Rightarrow> True | r # rs \<Rightarrow> list_all (\<lambda>x. length x = length r) rs)"

text \<open>The number of edges of an index buffer: the length of its first row.\<close>

definition edge_count :: "int list list \<Rightarrow> nat" where
  "edge_count idx = (case idx of [] \<Rightarrow> 0 | r # _ \<Rightarrow> length r)"

text \<open>
  The edge features of a triplet that the second loop attaches: present in the export,
  not empty, and with a first row that is not empty.
\<close>

definition attached_feats :: "'a tensor_export \<Rightarrow> pystr \<Rightarrow> 'a list list option" where
  "attached_feats ex triplet_str =
     (case edgeFeatures ex of
        None \<Rightarrow> None
      | Some ef \<Rightarrow>
          (case map_of ef triplet_str of
             None \<Rightarrow> None
           | Some f \<Rightarrow> if (case f of [] \<Rightarrow> False | r # _ \<Rightarrow> 0 < length r) then Some f else None))"

text \<open>
  Exports for the examples: the sample of the specification (two rows of two features,
  one edge), the same with an index beyond the two rows, the same with three rows of
  edge features for its one edge, and one whose feature vectors differ in width.
\<close>

definition person_knows :: pystr where
  "person_knows = lit ''Person,knows,Person''"

definition tensor_sample :: "int tensor_export" where
  "tensor_sample =
     \<lparr>nodeFeatures = Some [(lit ''Person'', [[1, 2], [3, 4]])], nodeLabels = None,
      edgeIndices = Some [(person_knows, [[0], [1]])], edgeFeatures = None\<rparr>"

definition out_of_range_export :: "int tensor_export" where
  "out_of_range_export =
     \<lparr>nodeFeatures = Some [(lit ''Person'', [[1, 2], [3, 4]])], nodeLabels = None,
      edgeIndices = Some [(person_knows, [[0], [5]])], edgeFeatures = None\<rparr>"

definition mismatch_export :: "int tensor_export" where
  "mismatch_export =
     \<lparr>nodeFeatures = Some [(lit ''Person'', [[1, 2], [3, 4]])], nodeLabels = None,
      edgeIndices = Some [(person_knows, [[0], [1]])],
      edgeFeatures = Some [(person_knows, [[7], [8], [9]])]\<rparr>"

definition ragged_export :: "int tensor_export" where
  "ragged_export =
     \<lparr>nodeFeatures = Some [(lit ''Person'', [[1, 2], [3]])], nodeLabels = None,
      edgeIndices = Some [(person_knows, [[0], [1]])], edgeFeatures = None\<rparr>"

section \<open>Strings: auxiliary facts\<close>

lemma sublist_under_append: "sublist xs ys \<Longrightarrow> sublist xs (zs @ ys)"
  unfolding sublist_def by (metis append.assoc)

lemma sublist_mid: "sublist x y \<Longrightarrow> sublist x (p @ y @ q)"
  unfolding sublist_def by (metis append.assoc)

lemma sublist_join: "x \<in> set xs \<Longrightarrow> sublist x (join sep xs)"
proof (induction sep xs rule: join.induct)
  case (3 sep a b bs)
  show ?case
  proof (cases "x = a")
    case True
    then show ?thesis by simp
  next
    case False
    with 3 have "sublist x (join sep (b # bs))" by simp
    then have "sublist x ((a @ sep) @ join sep (b # bs))" by (rule sublist_under_append)
    then show ?thesis by simp
  qed
qed simp_all

lemma upper_Cons: "upper up (a # s) = upper_cp up a @ upper up s"
  by (simp add: upper_def)

lemma upper_cp_ci_eq:
  "ci_eq a b \<Longrightarrow> b < 97 \<or> (122 < b \<and> b < 128) \<Longrightarrow> upper_cp up a = [b]"
  by (auto simp: ci_eq_def upper_cp_def)

lemma ci_prefix_upper:
  "ci_prefix tok s \<Longrightarrow> upper_token tok \<Longrightarrow> prefix tok (upper up s)"
proof (induction tok s rule: ci_prefix.induct)
  case (3 b bs a as)
  then have "upper_cp up a = [b]"
    by (simp add: upper_cp_ci_eq upper_token_def)
  with 3 show ?case
    by (simp add: upper_Cons upper_token_def)
qed simp_all

lemma ci_occurs_upper:
  "ci_occurs tok s \<Longrightarrow> upper_token tok \<Longrightarrow> str_in tok (upper up s)"
proof (induction s)
  case Nil
  then show ?case by (cases tok) (simp_all add: str_in_def)
next
  case (Cons a s)
  show ?case
  proof (cases "ci_prefix tok (a # s)")
    case True
    then have "prefix tok (upper up (a # s))"
      using Cons.prems ci_prefix_upper by blast
    then show ?thesis
      unfolding str_in_def by (rule prefix_imp_sublist)
  next
    case False
    with Cons have "sublist tok (upper up s)"
      by (simp add: str_in_def)
    then show ?thesis
      unfolding str_in_def upper_Cons by (rule sublist_under_append)
  qed
qed

text \<open>On ASCII text the two readings of "case-insensitively" agree.\<close>

lemma upper_ascii: "ascii_text s \<Longrightarrow> upper up s = map ascii_upper s"
  by (induction s) (simp_all add: upper_def upper_cp_def ascii_text_def ascii_upper_def)

lemma upper_upper_token: "upper_token tok \<Longrightarrow> upper up tok = tok"
  by (induction tok) (auto simp: upper_def upper_cp_def upper_token_def)

lemma prefix_map_ci_prefix:
  "upper_token tok \<Longrightarrow> prefix tok (map ascii_upper s) \<Longrightarrow> ci_prefix tok s"
proof (induction tok s rule: ci_prefix.induct)
  case (3 b bs a as)
  then have "ascii_upper a = b" and "prefix bs (map ascii_upper as)" and "upper_token bs"
    and "b < 97 \<or> (122 < b \<and> b < 128)"
    by (simp_all add: upper_token_def)
  moreover from this have "ci_eq a b"
    by (auto simp: ci_eq_def ascii_upper_def split: if_splits)
  ultimately show ?case using 3 by simp
qed simp_all

lemma sublist_map_ci_occurs:
  "upper_token tok \<Longrightarrow> sublist tok (map ascii_upper s) \<Longrightarrow> ci_occurs tok s"
proof (induction s)
  case Nil
  then show ?case by (cases tok) simp_all
next
  case (Cons a s)
  from Cons.prems(2) have "prefix tok (map ascii_upper (a # s)) \<or> sublist tok (map ascii_upper s)"
    by (simp add: sublist_Cons_right)
  then show ?case
    using Cons.IH Cons.prems(1) prefix_map_ci_prefix by auto
qed

lemma contains_ci_ascii:
  assumes "ascii_text q" and "upper_token tok"
  shows "contains_ci up tok q \<longleftrightarrow> ci_occurs tok q"
proof
  assume "contains_ci up tok q"
  with assms show "ci_occurs tok q"
    by (simp add: contains_ci_def upper_ascii upper_upper_token sublist_map_ci_occurs)
next
  assume "ci_occurs tok q"
  then have "str_in tok (upper up q)" using assms(2) by (rule ci_occurs_upper)
  with assms(2) show "contains_ci up tok q"
    by (simp add: contains_ci_def upper_upper_token str_in_def)
qed

lemmas str_eval =
  lit_def upper_def upper_cp_def str_in_def sublist_code prefix_code rstrip_def isspace_cp_def

section \<open>The query gateway: the two gates and the result\<close>

lemma upper_lit_LIMIT: "upper up (lit ''LIMIT'') = lit ''LIMIT''"
  by (simp add: lit_def upper_def upper_cp_def)

lemma bounded_contains_ci:
  "bounded up q = (if contains_ci up (lit ''LIMIT'') q then q else rstrip q @ limit_clause)"
  by (simp add: bounded_def contains_ci_def upper_lit_LIMIT str_in_def)

lemma query_runner_sent:
  "is_read_only up q \<Longrightarrow> fst (query_runner up store render q) = [bounded up q]"
  by (simp add: query_runner_def Let_def split: sum.splits)

lemma read_only_match_all: "is_read_only up (lit ''MATCH (n) RETURN n'')"
  by (simp add: is_read_only_def bad_def str_eval)

lemma read_only_match_limit: "is_read_only up (lit ''MATCH (n) RETURN n LIMIT 5'')"
  by (simp add: is_read_only_def bad_def str_eval)

lemma bounded_match_all:
  "bounded up (lit ''MATCH (n) RETURN n'') = lit ''MATCH (n) RETURN n\<newline>LIMIT 25''"
  by (simp add: bounded_def limit_clause_def str_eval)

lemma bounded_match_limit:
  "bounded up (lit ''MATCH (n) RETURN n LIMIT 5'') = lit ''MATCH (n) RETURN n LIMIT 5''"
  by (simp add: bounded_def limit_clause_def str_eval)

text \<open>
  The entry \<open>LOAD CSV\<close> of the denylist works as the five keywords do: a text with
  \<open>load csv\<close> in any mix of cases is refused and not sent to the store.
\<close>

lemma query_runner_refuses_load_csv:
  assumes "ci_occurs (lit ''LOAD CSV'') q"
  shows "query_runner up store render q = ([], Inr refusal)"
proof -
  have "upper_token (lit ''LOAD CSV'')"
    by (simp add: upper_token_def lit_def)
  with assms have "str_in (lit ''LOAD CSV'') (upper up q)"
    by (rule ci_occurs_upper)
  then have "\<not> is_read_only up q"
    by (auto simp: is_read_only_def list_ex_iff bad_def)
  then show ?thesis
    by (simp add: query_runner_def)
qed

text \<open>
  C1. A query text in which one of the tokens DELETE, MERGE, SET, DROP or CREATE occurs
  anywhere, in any mix of upper and lower case, is answered with the fixed refusal
  string, and no query text is sent to the store. This holds for every upper-case table
  of the interpreter, every store and every rendering of records.
\<close>

theorem query_runner_refuses_denylisted:
  assumes "tok \<in> {lit ''DELETE'', lit ''MERGE'', lit ''SET'', lit ''DROP'', lit ''CREATE''}"
    and "ci_occurs tok q"
  shows "query_runner up store render q = ([], Inr refusal)"
proof -
  from assms(1) have "upper_token tok"
    by (auto simp: upper_token_def lit_def)
  with assms(2) have "str_in tok (upper up q)"
    by (rule ci_occurs_upper)
  moreover from assms(1) have "tok \<in> set bad"
    by (auto simp: bad_def)
  ultimately have "\<not> is_read_only up q"
    by (auto simp: is_read_only_def list_ex_iff)
  then show ?thesis
    by (simp add: query_runner_def)
qed

theorem query_runner_refuses_denylisted_witness:
  "lit ''DELETE'' \<in> {lit ''DELETE'', lit ''MERGE'', lit ''SET'', lit ''DROP'', lit ''CREATE''}
   \<and> ci_occurs (lit ''DELETE'') (lit ''match (n) detach delete n'')
   \<and> query_runner (\<lambda>c. [c]) (\<lambda>q. Inr [()]) (\<lambda>r. lit ''{}'') (lit ''match (n) detach delete n'')
       = ([], Inr refusal)"
proof -
  have h: "ci_occurs (lit ''DELETE'') (lit ''match (n) detach delete n'')"
    by (simp add: lit_def ci_eq_def)
  show ?thesis
    using h query_runner_refuses_denylisted [OF _ h, of "\<lambda>c. [c]" "\<lambda>q. Inr [()]" "\<lambda>r. lit ''{}''"]
    by simp
qed

text \<open>
  C2. The denylist has the entry \<open>CALL dbms\<close> for the administrative procedures, and the
  claim is that a text with such a call is refused in any casing. The entry is compared
  with the upper-cased text and has lower-case letters itself, so it matches nothing:
  the call below passes the gate and is sent to the store, with the default bound
  appended.
\<close>

theorem query_runner_runs_call_dbms:
  "is_read_only up (lit ''CALL dbms.components()'')
   \<and> fst (query_runner up store render (lit ''CALL dbms.components()''))
       = [lit ''CALL dbms.components()\<newline>LIMIT 25'']"
proof -
  have a: "is_read_only up (lit ''CALL dbms.components()'')"
    by (simp add: is_read_only_def bad_def str_eval)
  have b: "bounded up (lit ''CALL dbms.components()'')
      = lit ''CALL dbms.components()\<newline>LIMIT 25''"
    by (simp add: bounded_def limit_clause_def str_eval)
  show ?thesis using a b by (simp add: query_runner_sent)
qed

text \<open>
  C3. For a query text that passes the mutation gate, exactly one text is sent to the
  store. When LIMIT does not occur in it case-insensitively (both sides compared in
  upper case, as the gate does), that text is the query without its trailing white
  space, followed by a line break and \<open>LIMIT 25\<close>; when it occurs, the text is the query
  itself, unmodified. On ASCII text this comparison is the letter-by-letter one.
  \<open>MATCH (n) RETURN n\<close> gets the bound and \<open>MATCH (n) RETURN n LIMIT 5\<close> is left as it is.
\<close>

theorem query_runner_bound_injection:
  "(is_read_only up q \<longrightarrow>
      fst (query_runner up store render q) =
        [if contains_ci up (lit ''LIMIT'') q then q else rstrip q @ lit ''\<newline>LIMIT 25''])
   \<and> (ascii_text q \<longrightarrow> contains_ci up (lit ''LIMIT'') q = ci_occurs (lit ''LIMIT'') q)
   \<and> fst (query_runner up store render (lit ''MATCH (n) RETURN n''))
        = [lit ''MATCH (n) RETURN n\<newline>LIMIT 25'']
   \<and> fst (query_runner up store render (lit ''MATCH (n) RETURN n LIMIT 5''))
        = [lit ''MATCH (n) RETURN n LIMIT 5'']"
proof (intro conjI impI)
  assume "is_read_only up q"
  then show "fst (query_runner up store render q) =
        [if contains_ci up (lit ''LIMIT'') q then q else rstrip q @ lit ''\<newline>LIMIT 25'']"
    by (simp add: query_runner_sent bounded_contains_ci limit_clause_def lit_def)
next
  assume "ascii_text q"
  moreover have "upper_token (lit ''LIMIT'')"
    by (simp add: upper_token_def lit_def)
  ultimately show "contains_ci up (lit ''LIMIT'') q = ci_occurs (lit ''LIMIT'') q"
    by (rule contains_ci_ascii)
next
  show "fst (query_runner up store render (lit ''MATCH (n) RETURN n''))
        = [lit ''MATCH (n) RETURN n\<newline>LIMIT 25'']"
    by (simp only: query_runner_sent [OF read_only_match_all] bounded_match_all)
next
  show "fst (query_runner up store render (lit ''MATCH (n) RETURN n LIMIT 5''))
        = [lit ''MATCH (n) RETURN n LIMIT 5'']"
    by (simp only: query_runner_sent [OF read_only_match_limit] bounded_match_limit)
qed

theorem query_runner_bound_injection_witness:
  "is_read_only (\<lambda>c. [c]) (lit ''match (n) return n  '')
   \<and> \<not> contains_ci (\<lambda>c. [c]) (lit ''LIMIT'') (lit ''match (n) return n  '')
   \<and> fst (query_runner (\<lambda>c. [c]) (\<lambda>q. Inr [()]) (\<lambda>r. lit ''{}'') (lit ''match (n) return n  ''))
       = [lit ''match (n) return n\<newline>LIMIT 25'']
   \<and> is_read_only (\<lambda>c. [c]) (lit ''match (n) return n limit 3 '')
   \<and> fst (query_runner (\<lambda>c. [c]) (\<lambda>q. Inr [()]) (\<lambda>r. lit ''{}'') (lit ''match (n) return n limit 3 ''))
       = [lit ''match (n) return n limit 3 '']"
proof -
  have a: "is_read_only (\<lambda>c. [c]) (lit ''match (n) return n  '')"
    by (simp add: is_read_only_def bad_def str_eval)
  have b: "\<not> contains_ci (\<lambda>c. [c]) (lit ''LIMIT'') (lit ''match (n) return n  '')"
    by (simp add: contains_ci_def str_eval)
  have c: "rstrip (lit ''match (n) return n  '') = lit ''match (n) return n''"
    by (simp add: str_eval)
  have d: "is_read_only (\<lambda>c. [c]) (lit ''match (n) return n limit 3 '')"
    by (simp add: is_read_only_def bad_def str_eval)
  have e: "contains_ci (\<lambda>c. [c]) (lit ''LIMIT'') (lit ''match (n) return n limit 3 '')"
    by (simp add: contains_ci_def str_eval)
  show ?thesis
    using a b c d e
      query_runner_bound_injection [where up = "\<lambda>c. [c]" and q = "lit ''match (n) return n  ''"
        and store = "\<lambda>q. Inr [()]" and render = "\<lambda>r. lit ''{}''"]
      query_runner_bound_injection [where up = "\<lambda>c. [c]" and q = "lit ''match (n) return n limit 3 ''"
        and store = "\<lambda>q. Inr [()]" and render = "\<lambda>r. lit ''{}''"]
    by (simp add: lit_def)
qed

text \<open>
  C4. For a query text that passes the mutation gate and is sent to the store: when the
  store returns no record, \<open>query_runner\<close> returns the sentinel \<open>No results found.\<close>, which
  is not the empty string; when the store raises, the same exception leaves
  \<open>query_runner\<close> and no string is returned.
\<close>

theorem query_runner_empty_and_error:
  assumes "is_read_only up q"
  shows "(store (bounded up q) = Inr [] \<longrightarrow>
            query_runner up store render q = ([bounded up q], Inr no_results))
       \<and> (store (bounded up q) = Inl e \<longrightarrow>
            query_runner up store render q = ([bounded up q], Inl e))
       \<and> no_results \<noteq> []"
  using assms by (simp add: query_runner_def no_results_def lit_def)

theorem query_runner_empty_and_error_witness:
  "is_read_only (\<lambda>c. [c]) (lit ''MATCH (n) RETURN n'')
   \<and> query_runner (\<lambda>c. [c]) (\<lambda>q. Inr []) (\<lambda>r::unit. lit ''{}'') (lit ''MATCH (n) RETURN n'')
       = ([lit ''MATCH (n) RETURN n\<newline>LIMIT 25''], Inr (lit ''No results found.''))
   \<and> query_runner (\<lambda>c. [c]) (\<lambda>q. Inl (Exception (lit ''down''))) (\<lambda>r::unit. lit ''{}'')
         (lit ''MATCH (n) RETURN n'')
       = ([lit ''MATCH (n) RETURN n\<newline>LIMIT 25''], Inl (Exception (lit ''down'')))"
proof -
  have a: "is_read_only (\<lambda>c. [c]) (lit ''MATCH (n) RETURN n'')"
    by (rule read_only_match_all)
  show ?thesis
    using a
      query_runner_empty_and_error [OF a, where store = "\<lambda>q. Inr []" and render = "\<lambda>r::unit. lit ''{}''"]
      query_runner_empty_and_error [OF a, where store = "\<lambda>q. Inl (Exception (lit ''down''))"
        and render = "\<lambda>r::unit. lit ''{}''" and e = "Exception (lit ''down'')"]
    by (simp add: bounded_match_all no_results_def)
qed

section \<open>The property-graph writer: the two loops\<close>

lemma runs_append: "runs (xs @ ys) = runs xs @ runs ys"
  by (induction xs rule: runs.induct) simp_all

lemma prints_append: "prints (xs @ ys) = prints xs @ prints ys"
  by (induction xs rule: prints.induct) simp_all

lemma outcomes_append:
  "outcomes run s (xs @ ys) = outcomes run s xs @ outcomes run (final_state run s xs) ys"
  by (induction xs arbitrary: s) simp_all

lemma final_state_append:
  "final_state run s (xs @ ys) = final_state run (final_state run s xs) ys"
  by (induction xs arbitrary: s) simp_all

lemma length_outcomes: "length (outcomes run s cs) = length cs"
  by (induction cs arbitrary: s) simp_all

text \<open>One pass through the body of the node loop, and one through that of the second loop.\<close>

lemma create_node_step:
  "session_state (create_node run node st) = fst (run (session_state st) (node_stmt node))
   \<and> runs (out (create_node run node st)) = runs (out st) @ [node_stmt node]
   \<and> nodes_created (create_node run node st) =
       nodes_created st + (if succeeded (snd (run (session_state st) (node_stmt node))) then 1 else 0)
   \<and> rels_created (create_node run node st) = rels_created st
   \<and> node_failures (out (create_node run node st)) =
       node_failures (out st) + (if succeeded (snd (run (session_state st) (node_stmt node))) then 0 else 1)
   \<and> rel_failures (out (create_node run node st)) = rel_failures (out st)"
  by (cases "run (session_state st) (node_stmt node)")
     (auto simp: create_node_def Let_def runs_append prints_append node_failures_def rel_failures_def
           split: sum.splits)

lemma create_rel_step:
  "session_state (create_rel run rel st) = fst (run (session_state st) (rel_stmt rel))
   \<and> runs (out (create_rel run rel st)) = runs (out st) @ [rel_stmt rel]
   \<and> rels_created (create_rel run rel st) =
       rels_created st + (if has_record (snd (run (session_state st) (rel_stmt rel))) then 1 else 0)
   \<and> nodes_created (create_rel run rel st) = nodes_created st
   \<and> rel_failures (out (create_rel run rel st)) =
       rel_failures (out st) + (if has_record (snd (run (session_state st) (rel_stmt rel))) then 0 else 1)
   \<and> node_failures (out (create_rel run rel st)) = node_failures (out st)"
proof (cases "run (session_state st) (rel_stmt rel)")
  case (Pair s' res)
  show ?thesis
  proof (cases res)
    case (Inl e)
    with Pair show ?thesis
      by (simp add: create_rel_def Let_def runs_append prints_append node_failures_def rel_failures_def)
  next
    case (Inr records)
    with Pair show ?thesis
      by (cases records)
         (simp_all add: create_rel_def Let_def single_def runs_append prints_append
            node_failures_def rel_failures_def)
  qed
qed

lemma fold_create_node:
  "session_state (fold (create_node run) ns st) = final_state run (session_state st) (map node_stmt ns)
   \<and> runs (out (fold (create_node run) ns st)) = runs (out st) @ map node_stmt ns
   \<and> nodes_created (fold (create_node run) ns st) =
       nodes_created st + length (filter succeeded (outcomes run (session_state st) (map node_stmt ns)))
   \<and> rels_created (fold (create_node run) ns st) = rels_created st
   \<and> node_failures (out (fold (create_node run) ns st)) =
       node_failures (out st)
         + length (filter (\<lambda>r. \<not> succeeded r) (outcomes run (session_state st) (map node_stmt ns)))
   \<and> rel_failures (out (fold (create_node run) ns st)) = rel_failures (out st)"
proof (induction ns arbitrary: st)
  case Nil
  show ?case by simp
next
  case (Cons n ns)
  show ?case
    using Cons.IH [of "create_node run n st"] create_node_step [of run n st]
    by simp
qed

lemma fold_create_rel:
  "session_state (fold (create_rel run) rs st) = final_state run (session_state st) (map rel_stmt rs)
   \<and> runs (out (fold (create_rel run) rs st)) = runs (out st) @ map rel_stmt rs
   \<and> rels_created (fold (create_rel run) rs st) =
       rels_created st + length (filter has_record (outcomes run (session_state st) (map rel_stmt rs)))
   \<and> nodes_created (fold (create_rel run) rs st) = nodes_created st
   \<and> rel_failures (out (fold (create_rel run) rs st)) =
       rel_failures (out st)
         + length (filter (\<lambda>r. \<not> has_record r) (outcomes run (session_state st) (map rel_stmt rs)))
   \<and> node_failures (out (fold (create_rel run) rs st)) = node_failures (out st)"
proof (induction rs arbitrary: st)
  case Nil
  show ?case by simp
next
  case (Cons r rs)
  show ?case
    using Cons.IH [of "create_rel run r st"] create_rel_step [of run r st]
    by simp
qed

text \<open>The writer against the reference: calls, final state, counts and failures.\<close>

lemma node_outcomes_eq:
  "node_outcomes run s ex = outcomes run s (map node_stmt (nodes_of ex))"
  by (simp add: node_outcomes_def all_stmts_def outcomes_append length_outcomes)

lemma rel_outcomes_eq:
  "rel_outcomes run s ex =
     outcomes run (final_state run s (map node_stmt (nodes_of ex))) (map rel_stmt (rels_of ex))"
  by (simp add: rel_outcomes_def all_stmts_def outcomes_append length_outcomes)

lemma length_node_outcomes: "length (node_outcomes run s ex) = length (nodes_of ex)"
  by (simp add: node_outcomes_eq length_outcomes)

lemma length_rel_outcomes: "length (rel_outcomes run s ex) = length (rels_of ex)"
  by (simp add: rel_outcomes_eq length_outcomes)

lemma load_from_json_runs:
  "runs (fst (snd (load_from_json run s ex))) = all_stmts ex"
  by (simp add: load_from_json_def Let_def fold_create_node fold_create_rel runs_append all_stmts_def)

lemma load_from_json_state:
  "fst (load_from_json run s ex) = final_state run s (all_stmts ex)"
  by (simp add: load_from_json_def Let_def fold_create_node fold_create_rel all_stmts_def
        final_state_append)

lemma load_from_json_result:
  "snd (snd (load_from_json run s ex)) =
     [(lit ''nodes_created'', length (filter succeeded (node_outcomes run s ex))),
      (lit ''relationships_created'', length (filter has_record (rel_outcomes run s ex)))]"
  by (simp add: load_from_json_def Let_def fold_create_node fold_create_rel
        node_outcomes_eq rel_outcomes_eq)

lemma failures_snoc_print:
  "node_failures (es @ [Print CreatingRelationships]) = node_failures es"
  "rel_failures (es @ [Print CreatingRelationships]) = rel_failures es"
  by (simp_all add: node_failures_def rel_failures_def prints_append)

lemma load_from_json_failures:
  fixes run :: "('s, 'v, 'r) session" and ex :: "'v export"
  shows
  "node_failures (fst (snd (load_from_json run s ex))) =
      length (filter (\<lambda>r. \<not> succeeded r) (node_outcomes run s ex))
   \<and> rel_failures (fst (snd (load_from_json run s ex))) =
      length (filter (\<lambda>r. \<not> has_record r) (rel_outcomes run s ex))"
proof -
  define st0 :: "('s, 'v) loader" where
    "st0 = \<lparr>session_state = s, nodes_created = 0, rels_created = 0,
            out = [Print (ExportContains (length (nodes_of ex)) (length (rels_of ex))),
                   Print CreatingNodes]\<rparr>"
  define st1 where "st1 = fold (create_node run) (nodes_of ex) st0"
  define st1' where "st1' = st1\<lparr>out := out st1 @ [Print CreatingRelationships]\<rparr>"
  define st2 where "st2 = fold (create_rel run) (rels_of ex) st1'"
  have e: "fst (snd (load_from_json run s ex)) = out st2"
    by (simp add: load_from_json_def Let_def st0_def st1_def st1'_def st2_def)
  have z: "node_failures (out st0) = 0" "rel_failures (out st0) = 0" "session_state st0 = s"
    by (simp_all add: st0_def node_failures_def rel_failures_def)
  have n1: "node_failures (out st1) =
      length (filter (\<lambda>r. \<not> succeeded r) (node_outcomes run s ex))"
    and r1: "rel_failures (out st1) = 0"
    and s1: "session_state st1 = final_state run s (map node_stmt (nodes_of ex))"
    using fold_create_node [of run "nodes_of ex" st0] z
    by (simp_all add: st1_def node_outcomes_eq)
  have n1': "node_failures (out st1') = node_failures (out st1)"
    and r1': "rel_failures (out st1') = 0"
    and s1': "session_state st1' = session_state st1"
    using r1 by (simp_all add: st1'_def failures_snoc_print)
  have "node_failures (out st2) = node_failures (out st1')"
    and "rel_failures (out st2) =
      length (filter (\<lambda>r. \<not> has_record r) (rel_outcomes run s ex))"
    using fold_create_rel [of run "rels_of ex" st1'] r1' s1' s1
    by (simp_all add: st2_def rel_outcomes_eq)
  with e n1 n1' show ?thesis by simp
qed

lemma filter_split_length:
  "length (filter P xs) + length (filter (\<lambda>x. \<not> P x) xs) = length xs"
  by (induction xs) simp_all

lemma filter_all_length: "length (filter P xs) = length xs \<longleftrightarrow> list_all P xs"
proof -
  have "length (filter P xs) = length xs \<longleftrightarrow> length (filter (\<lambda>x. \<not> P x) xs) = 0"
    using filter_split_length [of P xs] by arith
  also have "\<dots> \<longleftrightarrow> list_all P xs"
    by (simp add: filter_empty_conv list_all_iff)
  finally show ?thesis .
qed

lemma marker_in_node_props: "marker \<in> fst ` set (node_props node)"
  by (simp add: node_props_def dom_update)

lemma pair_export_parts:
  "nodes_of pair_export = [node_a, node_b]" "rels_of pair_export = [rel_ab]"
  by (simp_all add: nodes_of_def rels_of_def pair_export_def)

section \<open>The property-graph writer: order, counts, failures, the marker\<close>

text \<open>
  C5. The import has two phases. The calls the writer makes on the session are, in this
  order, the creation call of every node of the export, in input order, and then the
  creation call of every relationship, in input order. No relationship call comes
  before a node call, whatever the session answers.
\<close>

theorem load_from_json_two_phase:
  "runs (fst (snd (load_from_json run s ex))) =
     map node_stmt (nodes_of ex) @ map rel_stmt (rels_of ex)"
  using load_from_json_runs [of run s ex] by (simp add: all_stmts_def)

text \<open>
  C6, as amended. The calls after the node calls are the relationship calls, one per
  relationship of the export, so the relationships attempted are as many as the export
  has. The dictionary returned has two entries, \<open>nodes_created\<close> and
  \<open>relationships_created\<close>; the numbers attempted are printed and not returned.
  \<open>relationships_created\<close> is the number of relationship calls that came back with a
  record; it is at most the number attempted, and equal to it exactly when every
  relationship call came back with a record.
\<close>

theorem load_from_json_counts:
  "drop (length (nodes_of ex)) (runs (fst (snd (load_from_json run s ex))))
     = map rel_stmt (rels_of ex)
   \<and> length (rel_outcomes run s ex) = length (rels_of ex)
   \<and> snd (snd (load_from_json run s ex)) =
       [(lit ''nodes_created'', length (filter succeeded (node_outcomes run s ex))),
        (lit ''relationships_created'', length (filter has_record (rel_outcomes run s ex)))]
   \<and> length (filter has_record (rel_outcomes run s ex)) \<le> length (rels_of ex)
   \<and> (length (filter has_record (rel_outcomes run s ex)) = length (rels_of ex)
        \<longleftrightarrow> list_all has_record (rel_outcomes run s ex))"
proof (intro conjI)
  show "drop (length (nodes_of ex)) (runs (fst (snd (load_from_json run s ex))))
     = map rel_stmt (rels_of ex)"
    by (simp add: load_from_json_runs all_stmts_def)
  show "length (rel_outcomes run s ex) = length (rels_of ex)"
    by (rule length_rel_outcomes)
  show "snd (snd (load_from_json run s ex)) =
       [(lit ''nodes_created'', length (filter succeeded (node_outcomes run s ex))),
        (lit ''relationships_created'', length (filter has_record (rel_outcomes run s ex)))]"
    by (rule load_from_json_result)
  show "length (filter has_record (rel_outcomes run s ex)) \<le> length (rels_of ex)"
    using length_filter_le [of has_record "rel_outcomes run s ex"]
    by (simp add: length_rel_outcomes)
  show "length (filter has_record (rel_outcomes run s ex)) = length (rels_of ex)
        \<longleftrightarrow> list_all has_record (rel_outcomes run s ex)"
    using filter_all_length [of has_record "rel_outcomes run s ex"]
    by (simp add: length_rel_outcomes)
qed

theorem load_from_json_counts_witness:
  "snd (snd (load_from_json accepting () pair_export)) =
       [(lit ''nodes_created'', 2), (lit ''relationships_created'', 1)]
   \<and> length (rels_of pair_export) = 1
   \<and> list_all has_record (rel_outcomes accepting () pair_export)
   \<and> snd (snd (load_from_json missing () pair_export)) =
       [(lit ''nodes_created'', 2), (lit ''relationships_created'', 0)]
   \<and> \<not> list_all has_record (rel_outcomes missing () pair_export)"
  using load_from_json_counts [of pair_export accepting "()"]
    load_from_json_counts [of pair_export missing "()"]
  by (simp add: node_outcomes_eq rel_outcomes_eq accepting_def missing_def pair_export_parts)

text \<open>
  The claim as stated says that four counts are returned. With a session that rejects
  every call, the sample export (one node, no relationship) and the export of two nodes
  and one relationship give the same dictionary: the numbers attempted are not in it.
\<close>

theorem load_from_json_counts_counterexample:
  "snd (snd (load_from_json rejecting () sample_export)) =
       [(lit ''nodes_created'', 0), (lit ''relationships_created'', 0)]
   \<and> snd (snd (load_from_json rejecting () pair_export)) =
       snd (snd (load_from_json rejecting () sample_export))
   \<and> length (nodes_of sample_export) = 1 \<and> length (nodes_of pair_export) = 2
   \<and> length (rels_of sample_export) = 0 \<and> length (rels_of pair_export) = 1"
  by (simp add: load_from_json_result node_outcomes_eq rel_outcomes_eq rejecting_def
        nodes_of_def rels_of_def sample_export_def pair_export_def)

text \<open>
  C7, as amended. A node whose creation call raises is caught: the exception is printed
  as a failure of that node, and the loop goes on from the state the call has left. A
  relationship whose call comes back without a record is printed as not found, and the
  loop goes on. Failures are printed and not counted: the writer has the two counters of
  what it created and no other, and a failure changes neither. For the whole import,
  with any session: every node and every relationship is attempted, the failures
  printed are the calls that raised (for relationships: raised or came back empty), and
  created plus printed failures is the number of the export, for nodes and for
  relationships. The second loop raises nothing: \<open>load_from_json\<close> has a result for
  every session.
\<close>

theorem load_from_json_isolates_failures:
  "(run (session_state st) (node_stmt node) = (s', Inl e) \<longrightarrow>
      create_node run node st =
        st\<lparr>session_state := s',
           out := out st @ [Run (node_stmt node), Print (NodeFailed (n_id node) e)]\<rparr>)
   \<and> (run (session_state st) (rel_stmt rel) = (s', Inr []) \<longrightarrow>
      create_rel run rel st =
        st\<lparr>session_state := s',
           out := out st @
             [Run (rel_stmt rel), Print (RelNotFound (r_startNodeId rel) (r_endNodeId rel))]\<rparr>)
   \<and> runs (fst (snd (load_from_json run s ex))) = all_stmts ex
   \<and> node_failures (fst (snd (load_from_json run s ex))) =
       length (filter (\<lambda>r. \<not> succeeded r) (node_outcomes run s ex))
   \<and> rel_failures (fst (snd (load_from_json run s ex))) =
       length (filter (\<lambda>r. \<not> has_record r) (rel_outcomes run s ex))
   \<and> length (filter succeeded (node_outcomes run s ex))
       + node_failures (fst (snd (load_from_json run s ex))) = length (nodes_of ex)
   \<and> length (filter has_record (rel_outcomes run s ex))
       + rel_failures (fst (snd (load_from_json run s ex))) = length (rels_of ex)"
proof (intro conjI impI)
  assume "run (session_state st) (node_stmt node) = (s', Inl e)"
  then show "create_node run node st =
        st\<lparr>session_state := s',
           out := out st @ [Run (node_stmt node), Print (NodeFailed (n_id node) e)]\<rparr>"
    by (simp add: create_node_def Let_def)
next
  assume "run (session_state st) (rel_stmt rel) = (s', Inr [])"
  then show "create_rel run rel st =
        st\<lparr>session_state := s',
           out := out st @
             [Run (rel_stmt rel), Print (RelNotFound (r_startNodeId rel) (r_endNodeId rel))]\<rparr>"
    by (simp add: create_rel_def Let_def single_def)
next
  show "runs (fst (snd (load_from_json run s ex))) = all_stmts ex"
    by (rule load_from_json_runs)
next
  show "node_failures (fst (snd (load_from_json run s ex))) =
       length (filter (\<lambda>r. \<not> succeeded r) (node_outcomes run s ex))"
    using load_from_json_failures [of run s ex] by simp
next
  show "rel_failures (fst (snd (load_from_json run s ex))) =
       length (filter (\<lambda>r. \<not> has_record r) (rel_outcomes run s ex))"
    using load_from_json_failures [of run s ex] by simp
next
  show "length (filter succeeded (node_outcomes run s ex))
       + node_failures (fst (snd (load_from_json run s ex))) = length (nodes_of ex)"
    using load_from_json_failures [of run s ex]
      filter_split_length [of succeeded "node_outcomes run s ex"]
    by (simp add: length_node_outcomes)
next
  show "length (filter has_record (rel_outcomes run s ex))
       + rel_failures (fst (snd (load_from_json run s ex))) = length (rels_of ex)"
    using load_from_json_failures [of run s ex]
      filter_split_length [of has_record "rel_outcomes run s ex"]
    by (simp add: length_rel_outcomes)
qed

theorem load_from_json_isolates_failures_witness:
  "rejecting (session_state loader0) (node_stmt node_a) = ((), Inl (Exception (lit ''rejected'')))
   \<and> create_node rejecting node_a loader0 =
       loader0\<lparr>session_state := (),
         out := out loader0 @
           [Run (node_stmt node_a), Print (NodeFailed (n_id node_a) (Exception (lit ''rejected'')))]\<rparr>
   \<and> missing (session_state loader0) (rel_stmt rel_ab) = ((), Inr [])
   \<and> create_rel missing rel_ab loader0 =
       loader0\<lparr>session_state := (),
         out := out loader0 @
           [Run (rel_stmt rel_ab), Print (RelNotFound (r_startNodeId rel_ab) (r_endNodeId rel_ab))]\<rparr>
   \<and> runs (fst (snd (load_from_json rejecting () pair_export)))
       = [node_stmt node_a, node_stmt node_b, rel_stmt rel_ab]
   \<and> node_failures (fst (snd (load_from_json rejecting () pair_export))) = 2
   \<and> rel_failures (fst (snd (load_from_json rejecting () pair_export))) = 1
   \<and> rel_failures (fst (snd (load_from_json missing () pair_export))) = 1"
proof -
  have a: "rejecting (session_state loader0) (node_stmt node_a)
      = ((), Inl (Exception (lit ''rejected'')))"
    by (simp add: rejecting_def)
  have b: "missing (session_state loader0) (rel_stmt rel_ab) = ((), Inr [])"
    by (simp add: missing_def)
  note t1 = load_from_json_isolates_failures [where run = rejecting and st = loader0
      and node = node_a and s' = "()" and e = "Exception (lit ''rejected'')" and rel = rel_ab
      and s = "()" and ex = pair_export]
  note t2 = load_from_json_isolates_failures [where run = missing and st = loader0
      and node = node_a and s' = "()" and e = "Exception (lit ''rejected'')" and rel = rel_ab
      and s = "()" and ex = pair_export]
  have c: "all_stmts pair_export = [node_stmt node_a, node_stmt node_b, rel_stmt rel_ab]"
    by (simp add: all_stmts_def pair_export_parts)
  have d: "node_outcomes rejecting () pair_export
        = [Inl (Exception (lit ''rejected'')), Inl (Exception (lit ''rejected''))]"
      "rel_outcomes rejecting () pair_export = [Inl (Exception (lit ''rejected''))]"
      "rel_outcomes missing () pair_export = [Inr []]"
    by (simp_all add: node_outcomes_eq rel_outcomes_eq rejecting_def missing_def
          pair_export_parts)
  from a b t1 t2 show ?thesis
    by (simp only: c d) simp
qed

text \<open>
  The claim as stated has every failure counted. With a session that rejects every call,
  the import of two nodes and one relationship has three failures and the import of
  nothing has none, and the two return the same dictionary; a rejected node and a
  relationship that is not found leave both counters of the writer as they were.
\<close>

theorem load_from_json_failures_counterexample:
  "node_failures (fst (snd (load_from_json rejecting () pair_export))) = 2
   \<and> rel_failures (fst (snd (load_from_json rejecting () pair_export))) = 1
   \<and> node_failures (fst (snd (load_from_json rejecting () empty_export))) = 0
   \<and> rel_failures (fst (snd (load_from_json rejecting () empty_export))) = 0
   \<and> snd (snd (load_from_json rejecting () pair_export))
       = snd (snd (load_from_json rejecting () empty_export))
   \<and> nodes_created (create_node rejecting node_a loader0) = nodes_created loader0
   \<and> rels_created (create_node rejecting node_a loader0) = rels_created loader0
   \<and> nodes_created (create_rel missing rel_ab loader0) = nodes_created loader0
   \<and> rels_created (create_rel missing rel_ab loader0) = rels_created loader0"
proof -
  have e: "nodes_of empty_export = []" "rels_of empty_export = []"
    by (simp_all add: nodes_of_def rels_of_def empty_export_def)
  have a: "node_outcomes rejecting () pair_export
        = [Inl (Exception (lit ''rejected'')), Inl (Exception (lit ''rejected''))]"
      "rel_outcomes rejecting () pair_export = [Inl (Exception (lit ''rejected''))]"
    by (simp_all add: node_outcomes_eq rel_outcomes_eq rejecting_def pair_export_parts)
  have b: "node_outcomes rejecting () empty_export = []"
      "rel_outcomes rejecting () empty_export = []"
    by (simp_all add: node_outcomes_eq rel_outcomes_eq e)
  have c: "nodes_created (create_node rejecting node_a loader0) = nodes_created loader0"
      "rels_created (create_node rejecting node_a loader0) = rels_created loader0"
    by (simp_all add: create_node_def Let_def rejecting_def)
  have d: "nodes_created (create_rel missing rel_ab loader0) = nodes_created loader0"
      "rels_created (create_rel missing rel_ab loader0) = rels_created loader0"
    by (simp_all add: create_rel_def Let_def missing_def single_def)
  from c d show ?thesis
    using load_from_json_failures [of rejecting "()" pair_export]
      load_from_json_failures [of rejecting "()" empty_export]
    by (simp add: load_from_json_result a b)
qed

text \<open>
  C10. The keyword arguments of the creation call of a node are its declared properties
  with the key \<open>_rulenet_id\<close> set to the external identifier of the node: that key is
  bound to the identifier, every other key keeps its declared value, and the query text
  writes the key into the property map of the new node. When the node declares a
  property \<open>_rulenet_id\<close> itself, its declared value is replaced by the identifier in
  place, with the same keys as before, and nothing is printed about it. This call is
  the one the first loop makes for the node.
\<close>

theorem node_stmt_marker:
  "snd (node_stmt node) = AList.update marker (n_id node) (declared_props node)
   \<and> map_of (snd (node_stmt node)) marker = Some (n_id node)
   \<and> (\<forall>k. k \<noteq> marker \<longrightarrow> map_of (snd (node_stmt node)) k = map_of (declared_props node) k)
   \<and> (marker \<in> fst ` set (declared_props node) \<longrightarrow>
        map fst (snd (node_stmt node)) = map fst (declared_props node))
   \<and> sublist (marker @ lit '': $'' @ marker) (fst (node_stmt node))
   \<and> runs (out (create_node run node st)) = runs (out st) @ [node_stmt node]"
proof (intro conjI allI impI)
  show a: "snd (node_stmt node) = AList.update marker (n_id node) (declared_props node)"
    by (simp add: node_stmt_def Let_def node_props_def declared_props_def)
  show "map_of (snd (node_stmt node)) marker = Some (n_id node)"
    by (simp add: a update_conv')
  show "map_of (snd (node_stmt node)) k = map_of (declared_props node) k" if "k \<noteq> marker" for k
    using that by (simp add: a update_conv')
  show "map fst (snd (node_stmt node)) = map fst (declared_props node)"
    if "marker \<in> fst ` set (declared_props node)"
    using that by (simp add: a update_keys)
  from marker_in_node_props [of node]
  obtain p where "p \<in> set (node_props node)" and "fst p = marker"
    by auto
  then have "marker @ lit '': $'' @ marker
      \<in> set (map (\<lambda>k. k @ lit '': $'' @ k) (map fst (node_props node)))"
    by (force simp: image_iff)
  then have "sublist (marker @ lit '': $'' @ marker) (props_str_of (node_props node))"
    unfolding props_str_of_def by (rule sublist_join)
  then have "sublist (marker @ lit '': $'' @ marker)
      ((lit ''CREATE (n:'' @ node_labels_str node @ lit '' {'') @ props_str_of (node_props node)
        @ lit ''})'')"
    by (rule sublist_mid)
  then show "sublist (marker @ lit '': $'' @ marker) (fst (node_stmt node))"
    by (simp add: node_stmt_def Let_def)
  show "runs (out (create_node run node st)) = runs (out st) @ [node_stmt node]"
    using create_node_step [of run node st] by simp
qed

theorem node_stmt_marker_witness:
  "marker \<in> fst ` set (declared_props node_a)
   \<and> lit ''label'' \<noteq> marker
   \<and> map_of (declared_props node_a) marker = Some (Some (Inl 99))
   \<and> map_of (snd (node_stmt node_a)) marker = Some (Some (Inl 1))
   \<and> map_of (snd (node_stmt node_a)) (lit ''label'') = Some (Some (Inr (lit ''Alice'')))
   \<and> map fst (snd (node_stmt node_a)) = [lit ''_rulenet_id'', lit ''label'']
   \<and> node_stmt node_a =
       (lit ''CREATE (n:Person {_rulenet_id: $_rulenet_id, label: $label})'',
        [(lit ''_rulenet_id'', Some (Inl 1)), (lit ''label'', Some (Inr (lit ''Alice'')))])"
proof -
  have d: "declared_props node_a =
      [(lit ''_rulenet_id'', Some (Inl 99)), (lit ''label'', Some (Inr (lit ''Alice'')))]"
    by (simp add: declared_props_def node_a_def)
  have m: "marker = lit ''_rulenet_id''"
    by (simp add: marker_def)
  have n: "lit ''label'' \<noteq> lit ''_rulenet_id''"
    by (simp add: lit_def)
  have i: "n_id node_a = Some (Inl 1)"
    by (simp add: node_a_def)
  have q: "fst (node_stmt node_a) = lit ''CREATE (n:Person {_rulenet_id: $_rulenet_id, label: $label})''"
    by (simp add: node_stmt_def Let_def node_labels_str_def node_props_def props_str_of_def
          node_a_def marker_def lit_def)
  from node_stmt_marker [of node_a accepting loader0] d m n i q show ?thesis
    by (simp add: prod_eq_iff)
qed

section \<open>The heterogeneous assembler: shapes and indices\<close>

lemma tensor_rectangular:
  "tensor rows = (if rectangular rows then Inr rows else Inl ShapeMismatchError)"
  by (simp add: tensor_def rectangular_def split: list.splits)

lemma split_not_Nil: "split sep s \<noteq> []"
  by (induction s) (simp_all split: list.splits)

lemma join_split: "join [sep] (split sep s) = s"
proof (induction s)
  case Nil
  show ?case by simp
next
  case (Cons c cs)
  obtain p ps where e: "split sep cs = p # ps"
    using split_not_Nil [of sep cs] by (cases "split sep cs") auto
  with Cons show ?case
    by (cases ps) auto
qed

lemma split_inject: "split sep s = split sep t \<Longrightarrow> s = t"
  by (metis join_split)

text \<open>The body of the first loop.\<close>

lemma node_step_ragged:
  "\<not> rectangular features \<Longrightarrow> node_step ex t features d = Inl ShapeMismatchError"
  by (simp add: node_step_def tensor_rectangular)

lemma node_step_Inr:
  "node_step ex t features d = Inr d' \<Longrightarrow>
     rectangular features \<and> edge_stores d' = edge_stores d"
  by (auto simp: node_step_def tensor_rectangular Let_def set_x_def set_labels_def
        split: if_splits option.splits)

lemma node_step_Inl:
  "node_step ex t features d = Inl e \<Longrightarrow> e = ShapeMismatchError"
  by (auto simp: node_step_def tensor_rectangular Let_def split: if_splits option.splits)

lemma load_nodes_ragged:
  "(t, rows) \<in> set nf \<Longrightarrow> \<not> rectangular rows \<Longrightarrow> load_nodes ex nf d = Inl ShapeMismatchError"
proof (induction ex nf d rule: load_nodes.induct)
  case (1 ex d)
  then show ?case by simp
next
  case (2 ex node_type features rest d)
  show ?case
  proof (cases "node_step ex node_type features d")
    case (Inl e)
    then show ?thesis by (simp add: node_step_Inl)
  next
    case (Inr d')
    then have "rectangular features" by (simp add: node_step_Inr)
    with "2.prems" have "(t, rows) \<in> set rest" by auto
    with 2 Inr show ?thesis by simp
  qed
qed

lemma load_nodes_Inr:
  "load_nodes ex nf d = Inr d' \<Longrightarrow>
     (\<forall>(t, rows) \<in> set nf. rectangular rows) \<and> edge_stores d' = edge_stores d"
proof (induction ex nf d rule: load_nodes.induct)
  case (1 ex d)
  then show ?case by simp
next
  case (2 ex node_type features rest d)
  then obtain d1 where s: "node_step ex node_type features d = Inr d1"
    and r: "load_nodes ex rest d1 = Inr d'"
    by (auto split: sum.splits)
  from "2.IH" [OF s r] node_step_Inr [OF s] show ?case by simp
qed

lemma load_nodes_Inl: "load_nodes ex nf d = Inl e \<Longrightarrow> e = ShapeMismatchError"
proof (induction ex nf d rule: load_nodes.induct)
  case (1 ex d)
  then show ?case by simp
next
  case (2 ex node_type features rest d)
  then show ?case
    by (cases "node_step ex node_type features d") (auto simp: node_step_Inl)
qed

text \<open>The body of the second loop.\<close>

lemma map_of_set_edge_index:
  "map_of (edge_stores (set_edge_index key t d)) key' =
     (if key' = key
      then Some (case map_of (edge_stores d) key of
                   None \<Rightarrow> \<lparr>edge_index = t, edge_attr = None\<rparr>
                 | Some st \<Rightarrow> st\<lparr>edge_index := t\<rparr>)
      else map_of (edge_stores d) key')"
  by (simp add: set_edge_index_def update_conv')

lemma map_of_set_edge_attr:
  "map_of (edge_stores (set_edge_attr key a d)) key' =
     (if key' = key
      then Some (case map_of (edge_stores d) key of
                   None \<Rightarrow> \<lparr>edge_index = [], edge_attr = Some a\<rparr>
                 | Some st \<Rightarrow> st\<lparr>edge_attr := Some a\<rparr>)
      else map_of (edge_stores d) key')"
  by (simp add: set_edge_attr_def update_conv')

lemma length_three: "length xs = 3 \<longleftrightarrow> (\<exists>a b c. xs = [a, b, c])"
  by (auto simp: length_Suc_conv numeral_3_eq_3)

lemma edge_step_three:
  "split 44 k = [a, b, c] \<Longrightarrow>
     edge_step ex k idx d =
       (case tensor idx of
          Inl e \<Rightarrow> Inl e
        | Inr t \<Rightarrow>
            (case attached_feats ex k of
               None \<Rightarrow> Inr (set_edge_index (a, b, c) t d)
             | Some f \<Rightarrow>
                 (case tensor f of
                    Inl e \<Rightarrow> Inl e
                  | Inr x \<Rightarrow> Inr (set_edge_attr (a, b, c) x (set_edge_index (a, b, c) t d)))))"
  by (simp add: edge_step_def attached_feats_def Let_def split: option.splits sum.splits)

lemma edge_step_not_three:
  assumes "length (split 44 k) \<noteq> 3"
  shows "edge_step ex k idx d = Inl ValueError"
proof -
  from assms have "\<forall>a b c. split 44 k \<noteq> [a, b, c]"
    by (simp add: length_three)
  then show ?thesis
    by (simp add: edge_step_def split: list.splits)
qed

lemma edge_step_Inr:
  assumes "edge_step ex k idx d = Inr d'"
  shows "\<exists>a b c st. split 44 k = [a, b, c] \<and> rectangular idx
           \<and> (\<forall>f. attached_feats ex k = Some f \<longrightarrow> rectangular f)
           \<and> map_of (edge_stores d') (a, b, c) = Some st \<and> edge_index st = idx
           \<and> (\<forall>key. key \<noteq> (a, b, c) \<longrightarrow> map_of (edge_stores d') key = map_of (edge_stores d) key)"
proof -
  from assms have "length (split 44 k) = 3"
    using edge_step_not_three [of k ex idx d] by auto
  then obtain a b c where s: "split 44 k = [a, b, c]"
    by (auto simp: length_three)
  note eq = edge_step_three [OF s, of ex idx d]
  from assms eq have r: "rectangular idx"
    by (simp add: tensor_rectangular split: if_splits)
  let ?d1 = "set_edge_index (a, b, c) idx d"
  obtain st1 where m1: "map_of (edge_stores ?d1) (a, b, c) = Some st1" and i1: "edge_index st1 = idx"
    by (simp add: map_of_set_edge_index split: option.splits)
  have o1: "\<forall>key. key \<noteq> (a, b, c) \<longrightarrow> map_of (edge_stores ?d1) key = map_of (edge_stores d) key"
    by (simp add: map_of_set_edge_index)
  show ?thesis
  proof (cases "attached_feats ex k")
    case None
    with assms eq r have "d' = ?d1"
      by (simp add: tensor_rectangular)
    with s r None m1 i1 o1 show ?thesis
      by simp
  next
    case (Some f)
    with assms eq r have f: "rectangular f" and d': "d' = set_edge_attr (a, b, c) f ?d1"
      by (simp_all add: tensor_rectangular split: if_splits)
    have "map_of (edge_stores d') (a, b, c) = Some (st1\<lparr>edge_attr := Some f\<rparr>)"
      by (simp add: d' map_of_set_edge_attr m1)
    moreover have "edge_index (st1\<lparr>edge_attr := Some f\<rparr>) = idx"
      by (simp add: i1)
    moreover have "\<forall>key. key \<noteq> (a, b, c) \<longrightarrow> map_of (edge_stores d') key = map_of (edge_stores d) key"
      using o1 by (simp add: d' map_of_set_edge_attr)
    ultimately show ?thesis
      using s r Some f by simp
  qed
qed

lemma edge_step_Inl:
  assumes "edge_step ex k idx d = Inl e" and "length (split 44 k) = 3"
  shows "e = ShapeMismatchError"
proof -
  from assms(2) obtain a b c where s: "split 44 k = [a, b, c]"
    by (auto simp: length_three)
  from assms(1) show ?thesis
    unfolding edge_step_three [OF s]
    by (simp add: tensor_rectangular split: if_splits option.splits)
qed

lemma load_edges_Inl:
  "load_edges ex ei d = Inl e \<Longrightarrow> \<forall>(k, idx) \<in> set ei. length (split 44 k) = 3 \<Longrightarrow>
     e = ShapeMismatchError"
proof (induction ex ei d rule: load_edges.induct)
  case (1 ex d)
  then show ?case by simp
next
  case (2 ex k idx rest d)
  then show ?case
    by (cases "edge_step ex k idx d") (auto simp: edge_step_Inl)
qed

lemma load_edges_others:
  "load_edges ex ei d = Inr d' \<Longrightarrow> \<forall>(k, idx) \<in> set ei. split 44 k \<noteq> [a, b, c] \<Longrightarrow>
     map_of (edge_stores d') (a, b, c) = map_of (edge_stores d) (a, b, c)"
proof (induction ex ei d rule: load_edges.induct)
  case (1 ex d)
  then show ?case by simp
next
  case (2 ex k idx rest d)
  then obtain d1 where s: "edge_step ex k idx d = Inr d1"
    and r: "load_edges ex rest d1 = Inr d'"
    by (auto split: sum.splits)
  from "2.prems"(2) have n: "split 44 k \<noteq> [a, b, c]"
    and m: "\<forall>(k, idx) \<in> set rest. split 44 k \<noteq> [a, b, c]"
    by auto
  from "2.IH" [OF s r m] have "map_of (edge_stores d') (a, b, c) = map_of (edge_stores d1) (a, b, c)" .
  also from edge_step_Inr [OF s] n have "\<dots> = map_of (edge_stores d) (a, b, c)"
    by auto
  finally show ?case .
qed

lemma load_edges_Inr:
  assumes "load_edges ex ei d = Inr d'" and "distinct (map fst ei)" and "(k, idx) \<in> set ei"
  shows "\<exists>a b c st. split 44 k = [a, b, c] \<and> rectangular idx
           \<and> (\<forall>f. attached_feats ex k = Some f \<longrightarrow> rectangular f)
           \<and> map_of (edge_stores d') (a, b, c) = Some st \<and> edge_index st = idx"
  using assms
proof (induction ex ei d rule: load_edges.induct)
  case (1 ex d)
  then show ?case by simp
next
  case (2 ex k0 idx0 rest d)
  then obtain d1 where s: "edge_step ex k0 idx0 d = Inr d1"
    and r: "load_edges ex rest d1 = Inr d'"
    by (auto split: sum.splits)
  show ?case
  proof (cases "(k, idx) = (k0, idx0)")
    case True
    from edge_step_Inr [OF s] obtain a b c st where
      e: "split 44 k0 = [a, b, c]" "rectangular idx0"
         "\<forall>f. attached_feats ex k0 = Some f \<longrightarrow> rectangular f"
         "map_of (edge_stores d1) (a, b, c) = Some st" "edge_index st = idx0"
      by blast
    have "\<forall>(k', idx') \<in> set rest. split 44 k' \<noteq> [a, b, c]"
    proof (clarify)
      fix k' idx'
      assume "(k', idx') \<in> set rest" and "split 44 k' = [a, b, c]"
      then have "split 44 k' = split 44 k0" using e(1) by simp
      then have "k' = k0" by (rule split_inject)
      with \<open>(k', idx') \<in> set rest\<close> "2.prems"(2) show False
        by (auto simp: image_iff)
    qed
    with r have "map_of (edge_stores d') (a, b, c) = map_of (edge_stores d1) (a, b, c)"
      by (rule load_edges_others)
    with e True show ?thesis by auto
  next
    case False
    with "2.prems" have "(k, idx) \<in> set rest" and "distinct (map fst rest)"
      by auto
    with "2.IH" [OF s r] show ?thesis by blast
  qed
qed

lemma load_edges_rectangular:
  "load_edges ex ei d = Inr d' \<Longrightarrow> (k, idx) \<in> set ei \<Longrightarrow>
     rectangular idx \<and> (\<forall>f. attached_feats ex k = Some f \<longrightarrow> rectangular f)"
proof (induction ex ei d rule: load_edges.induct)
  case (1 ex d)
  then show ?case by simp
next
  case (2 ex k0 idx0 rest d)
  then obtain d1 where s: "edge_step ex k0 idx0 d = Inr d1"
    and r: "load_edges ex rest d1 = Inr d'"
    by (auto split: sum.splits)
  show ?case
  proof (cases "(k, idx) = (k0, idx0)")
    case True
    with edge_step_Inr [OF s] show ?thesis by auto
  next
    case False
    with "2.prems" have "(k, idx) \<in> set rest" by auto
    with "2.IH" [OF s r] show ?thesis by simp
  qed
qed

lemmas assembler_eval =
  load_hetero_graph_def node_step_def edge_step_def tensor_def HeteroData_def set_x_def
  set_labels_def set_edge_index_def set_edge_attr_def person_knows_def lit_def

text \<open>
  C8, as amended. An export in which a node group has feature vectors of different
  widths fails with \<open>ShapeMismatchError\<close>, and no graph is returned. An export that is
  accepted has only rectangular buffers: the features of every node group, the index
  buffer of every triplet, and the edge features attached to a triplet. When every
  triplet string has three parts, \<open>ShapeMismatchError\<close> is the only error of an export
  with both top-level keys. The number of rows of an edge feature buffer is not compared
  with the number of edges of the index buffer.
\<close>

theorem load_hetero_graph_shapes:
  "(nodeFeatures ex = Some nf \<and> (t, rows) \<in> set nf \<and> \<not> rectangular rows \<longrightarrow>
      load_hetero_graph ex = Inl ShapeMismatchError)
   \<and> (load_hetero_graph ex = Inr d \<and> nodeFeatures ex = Some nf \<and> edgeIndices ex = Some ei \<longrightarrow>
        (\<forall>(t, rows) \<in> set nf. rectangular rows)
        \<and> (\<forall>(k, idx) \<in> set ei.
              rectangular idx \<and> (\<forall>f. attached_feats ex k = Some f \<longrightarrow> rectangular f)))
   \<and> (load_hetero_graph ex = Inl e \<and> nodeFeatures ex = Some nf \<and> edgeIndices ex = Some ei
        \<and> (\<forall>(k, idx) \<in> set ei. length (split 44 k) = 3) \<longrightarrow>
        e = ShapeMismatchError)"
proof (intro conjI impI)
  assume a: "nodeFeatures ex = Some nf \<and> (t, rows) \<in> set nf \<and> \<not> rectangular rows"
  then have "load_nodes ex nf HeteroData = Inl ShapeMismatchError"
    by (blast intro: load_nodes_ragged)
  with a show "load_hetero_graph ex = Inl ShapeMismatchError"
    by (simp add: load_hetero_graph_def)
next
  assume a: "load_hetero_graph ex = Inr d \<and> nodeFeatures ex = Some nf \<and> edgeIndices ex = Some ei"
  then obtain d1 where n: "load_nodes ex nf HeteroData = Inr d1"
    and l: "load_edges ex ei d1 = Inr d"
    by (auto simp: load_hetero_graph_def split: sum.splits)
  from load_nodes_Inr [OF n] show "\<forall>(t, rows) \<in> set nf. rectangular rows"
    by simp
  from load_edges_rectangular [OF l]
  show "\<forall>(k, idx) \<in> set ei.
          rectangular idx \<and> (\<forall>f. attached_feats ex k = Some f \<longrightarrow> rectangular f)"
    by auto
next
  assume a: "load_hetero_graph ex = Inl e \<and> nodeFeatures ex = Some nf \<and> edgeIndices ex = Some ei
        \<and> (\<forall>(k, idx) \<in> set ei. length (split 44 k) = 3)"
  then have l: "load_hetero_graph ex = Inl e" and n: "nodeFeatures ex = Some nf"
    and i: "edgeIndices ex = Some ei" and w: "\<forall>(k, idx) \<in> set ei. length (split 44 k) = 3"
    by simp_all
  show "e = ShapeMismatchError"
  proof (cases "load_nodes ex nf HeteroData")
    case (Inl e')
    with l n have "e' = e"
      by (simp add: load_hetero_graph_def)
    with Inl show ?thesis
      by (simp add: load_nodes_Inl)
  next
    case (Inr d1)
    with l n i have "load_edges ex ei d1 = Inl e"
      by (simp add: load_hetero_graph_def)
    then show ?thesis
      using w by (rule load_edges_Inl)
  qed
qed

theorem load_hetero_graph_shapes_witness:
  "nodeFeatures ragged_export = Some [(lit ''Person'', [[1, 2], [3]])]
   \<and> (lit ''Person'', [[1, 2], [3]]) \<in> set [(lit ''Person'', [[1, 2], [3::int]])]
   \<and> \<not> rectangular [[1, 2], [3::int]]
   \<and> load_hetero_graph ragged_export = Inl ShapeMismatchError
   \<and> load_hetero_graph tensor_sample =
       Inr \<lparr>node_stores = [(lit ''Person'', \<lparr>node_x = [[1, 2], [3, 4]], node_labels = None\<rparr>)],
            edge_stores = [((lit ''Person'', lit ''knows'', lit ''Person''),
                            \<lparr>edge_index = [[0], [1]], edge_attr = None\<rparr>)]\<rparr>
   \<and> rectangular [[1, 2], [3, 4::int]] \<and> rectangular [[0], [1::int]]"
proof -
  have a: "nodeFeatures ragged_export = Some [(lit ''Person'', [[1, 2], [3]])]"
    by (simp add: ragged_export_def)
  have b: "\<not> rectangular [[1, 2], [3::int]]"
    by (simp add: rectangular_def)
  have c: "load_hetero_graph tensor_sample =
       Inr \<lparr>node_stores = [(lit ''Person'', \<lparr>node_x = [[1, 2], [3, 4]], node_labels = None\<rparr>)],
            edge_stores = [((lit ''Person'', lit ''knows'', lit ''Person''),
                            \<lparr>edge_index = [[0], [1]], edge_attr = None\<rparr>)]\<rparr>"
    by (simp add: tensor_sample_def assembler_eval)
  have s: "nodeFeatures tensor_sample = Some [(lit ''Person'', [[1, 2], [3, 4]])]"
      "edgeIndices tensor_sample = Some [(person_knows, [[0], [1]])]"
    by (simp_all add: tensor_sample_def)
  from a b c s
    load_hetero_graph_shapes [where ex = ragged_export and nf = "[(lit ''Person'', [[1, 2], [3]])]"
      and t = "lit ''Person''" and rows = "[[1, 2], [3]]"]
    load_hetero_graph_shapes [where ex = tensor_sample and nf = "[(lit ''Person'', [[1, 2], [3, 4]])]"
      and ei = "[(person_knows, [[0], [1]])]"]
  show ?thesis
    by simp
qed

text \<open>
  The claim as stated also has the assembler fail when the rows of an edge feature
  buffer are not as many as the edges. This export has one edge and three rows of edge
  features; it is accepted, and the graph carries both buffers.
\<close>

theorem load_hetero_graph_shapes_counterexample:
  "load_hetero_graph mismatch_export =
       Inr \<lparr>node_stores = [(lit ''Person'', \<lparr>node_x = [[1, 2], [3, 4]], node_labels = None\<rparr>)],
            edge_stores = [((lit ''Person'', lit ''knows'', lit ''Person''),
                            \<lparr>edge_index = [[0], [1]], edge_attr = Some [[7], [8], [9]]\<rparr>)]\<rparr>
   \<and> edge_count [[0], [1]] = 1
   \<and> length [[7], [8], [9::int]] = 3"
  by (simp add: mismatch_export_def assembler_eval edge_count_def)

text \<open>
  C9, as amended. The assembler does not compare an index with the number of rows of
  the node group it refers to. In an accepted export (with the triplet strings
  distinct, as the keys of a dictionary are) the index buffer of every triplet is in
  the graph under its three parts, with the index values of the export unchanged: a
  value out of range is neither rejected nor clamped.
\<close>

theorem load_hetero_graph_keeps_indices:
  assumes "load_hetero_graph ex = Inr d" and "edgeIndices ex = Some ei"
    and "distinct (map fst ei)" and "(k, idx) \<in> set ei"
  shows "\<exists>a b c st. split 44 k = [a, b, c]
           \<and> map_of (edge_stores d) (a, b, c) = Some st \<and> edge_index st = idx"
proof -
  from assms(1,2) obtain d1 where "load_edges ex ei d1 = Inr d"
    by (auto simp: load_hetero_graph_def split: option.splits sum.splits)
  from load_edges_Inr [OF this assms(3,4)] show ?thesis
    by blast
qed

theorem load_hetero_graph_keeps_indices_witness:
  "load_hetero_graph out_of_range_export =
       Inr \<lparr>node_stores = [(lit ''Person'', \<lparr>node_x = [[1, 2], [3, 4]], node_labels = None\<rparr>)],
            edge_stores = [((lit ''Person'', lit ''knows'', lit ''Person''),
                            \<lparr>edge_index = [[0], [5]], edge_attr = None\<rparr>)]\<rparr>
   \<and> edgeIndices out_of_range_export = Some [(person_knows, [[0], [5]])]
   \<and> distinct (map fst [(person_knows, [[0], [5::int]])])
   \<and> (\<exists>a b c st. split 44 person_knows = [a, b, c]
         \<and> map_of [((lit ''Person'', lit ''knows'', lit ''Person''),
                     \<lparr>edge_index = [[0], [5]], edge_attr = (None :: int list list option)\<rparr>)] (a, b, c)
             = Some st
         \<and> edge_index st = [[0], [5]])"
proof -
  have a: "load_hetero_graph out_of_range_export =
       Inr \<lparr>node_stores = [(lit ''Person'', \<lparr>node_x = [[1, 2], [3, 4]], node_labels = None\<rparr>)],
            edge_stores = [((lit ''Person'', lit ''knows'', lit ''Person''),
                            \<lparr>edge_index = [[0], [5]], edge_attr = None\<rparr>)]\<rparr>"
    by (simp add: out_of_range_export_def assembler_eval)
  have b: "edgeIndices out_of_range_export = Some [(person_knows, [[0], [5]])]"
    by (simp add: out_of_range_export_def)
  have c: "distinct (map fst [(person_knows, [[0], [5::int]])])"
    by simp
  from load_hetero_graph_keeps_indices [OF a b c, of person_knows "[[0], [5]]"] a b c
  show ?thesis
    by simp
qed

text \<open>
  The claim as stated has every index of an accepted export below the number of rows
  of the node group. This export has two rows for \<open>Person\<close> and an edge to row 5; it is
  accepted, and the index 5 is in the graph.
\<close>

theorem load_hetero_graph_indices_counterexample:
  "load_hetero_graph out_of_range_export =
       Inr \<lparr>node_stores = [(lit ''Person'', \<lparr>node_x = [[1, 2], [3, 4]], node_labels = None\<rparr>)],
            edge_stores = [((lit ''Person'', lit ''knows'', lit ''Person''),
                            \<lparr>edge_index = [[0], [5]], edge_attr = None\<rparr>)]\<rparr>
   \<and> \<not> (5 < length [[1, 2], [3, 4::int]])"
  by (simp add: out_of_range_export_def assembler_eval)

end
